theory Spec2Isabelle
  imports Main
begin

section \<open>Pipeline topology: the data model\<close>

text \<open>
  The development embeds the pipeline-to-graph transformation of
  \<^verbatim>\<open>pipeline-topology/utils.ts\<close> and the construction of the builder's finally node
  (\<^verbatim>\<open>useConnectFinally\<close>).  JavaScript objects become records, optional fields become
  \<open>option\<close>s, arrays become lists and the one exception the code can raise becomes a
  value of a sum type; an object used as a dictionary keeps its prototype.  The type
  variable \<open>'v\<close> stands for the JavaScript values the transformation only passes along
  (task references, pipeline metadata, run status).
\<close>

datatype NodeType =
    TASK_NODE
  | SPACER_NODE
  | TASK_LIST_NODE
  | INVALID_TASK_LIST_NODE
  | BUILDER_NODE
  | FINALLY_NODE
  | BUILDER_FINALLY_NODE

datatype error = TypeError

text \<open>
  The constants of \<^verbatim>\<open>./const\<close> are imported by the source but their values are not part
  of it; every function that reads one takes them as a parameter.  They are pixel sizes,
  taken to be integers.
\<close>

record layout =
  NODE_HEIGHT :: int
  NODE_WIDTH :: int
  FINALLY_NODE_PADDING :: int
  FINALLY_NODE_VERTICAL_SPACING :: int

text \<open>An entry of \<^verbatim>\<open>task.finallyTasks\<close>: the finally task itself and the flag spread over it.\<close>

record 'v finally_item =
  ft :: 'v
  disableTooltip :: bool

text \<open>
  \<^verbatim>\<open>data.task\<close> of a node (a \<^verbatim>\<open>PipelineVisualizationTaskItem\<close>, or the synthetic task of
  a spacer or finally node).  \<open>task_fields\<close> holds whatever else the task object carries.
\<close>

record 'v task =
  name :: string
  runAfter :: "string list option"
  isFinallyTask :: "bool option"
  finallyTasks :: "'v finally_item list option"
  finallyListTasks :: "'v list option"
  task_fields :: "'v option"

record 'v PipelineSpec =
  spec_finally :: "'v list option"
  spec_fields :: "'v option"

record 'v PipelineKind =
  spec :: "'v PipelineSpec option"
  pipeline_fields :: "'v option"

text \<open>
  The payload of a node.  \<open>extra\<close> holds the parts of a builder payload that are
  closures or catalogue lists (\<^verbatim>\<open>onAddNode\<close>, \<^verbatim>\<open>onNewTask\<close>, \<^verbatim>\<open>error\<close>, \<^verbatim>\<open>selected\<close>,
  \<^verbatim>\<open>namespaceTaskList\<close>, ...).
\<close>

record 'v data =
  task :: "'v task"
  data_isFinallyTask :: "bool option"
  pipeline :: "'v PipelineKind option"
  pipelineRun :: "'v option"
  extra :: "'v option"

record 'v node =
  node_id :: string
  node_data :: "'v data"
  height :: int
  width :: int
  node_type :: NodeType

record edge =
  edge_id :: string
  edge_type :: string
  source :: string
  target :: string

record 'v graph =
  nodes :: "'v node list"
  edges :: "edge list"

text \<open>
  An element of the list \<^verbatim>\<open>handleParallelToParallelNodes\<close> returns: a node, or a node
  outside its declared type.  \<open>IllTyped n\<close> is the node \<open>n\<close>, except that its
  \<^verbatim>\<open>data.task.runAfter\<close> is no array of names but a function or a string (a value found
  through the prototype chain).
\<close>

datatype 'v mixed = WellTyped "'v node" | IllTyped "'v node"

fun mixed_node :: "'v mixed \<Rightarrow> 'v node" where
  "mixed_node (WellTyped n) = n"
| "mixed_node (IllTyped n) = n"

text \<open>The nodes of a list, when all of them are within the type.\<close>

fun wellTyped :: "'v mixed list \<Rightarrow> 'v node list option" where
  "wellTyped [] = Some []"
| "wellTyped (WellTyped n # xs) = map_option ((#) n) (wellTyped xs)"
| "wellTyped (IllTyped n # xs) = None"

section \<open>Library functions the source calls\<close>

text \<open>\<^verbatim>\<open>Array.prototype.join\<close>.\<close>

fun join :: "string \<Rightarrow> string list \<Rightarrow> string" where
  "join sep [] = []"
| "join sep [x] = x"
| "join sep (x # y # ys) = x @ sep @ join sep (y # ys)"

text \<open>
  \<^verbatim>\<open>Array.prototype.sort\<close> with a comparator: a stable sort, an element staying in front
  of the later ones it does not compare greater than.  The comparator of the source is
  \<^verbatim>\<open>String.prototype.localeCompare\<close>, which depends on the host's collation; it is a
  parameter \<open>lc\<close> of the model.
\<close>

fun insert_cmp :: "('a \<Rightarrow> 'a \<Rightarrow> int) \<Rightarrow> 'a \<Rightarrow> 'a list \<Rightarrow> 'a list" where
  "insert_cmp cmp x [] = [x]"
| "insert_cmp cmp x (y # ys) =
     (if cmp x y \<le> 0 then x # y # ys else y # insert_cmp cmp x ys)"

definition sort_cmp :: "('a \<Rightarrow> 'a \<Rightarrow> int) \<Rightarrow> 'a list \<Rightarrow> 'a list" where
  "sort_cmp cmp xs = foldr (insert_cmp cmp) xs []"

text \<open>A collation for concrete inputs: strings compared by their code units.\<close>

fun codeUnitCompare :: "string \<Rightarrow> string \<Rightarrow> int" where
  "codeUnitCompare [] [] = 0"
| "codeUnitCompare [] (y # ys) = - 1"
| "codeUnitCompare (x # xs) [] = 1"
| "codeUnitCompare (x # xs) (y # ys) =
     (if (of_char x :: nat) < of_char y then - 1
      else if (of_char y :: nat) < of_char x then 1
      else codeUnitCompare xs ys)"

text \<open>lodash's \<^verbatim>\<open>_.uniq\<close> (first occurrences, in order) and \<^verbatim>\<open>_.difference\<close>.\<close>

definition uniq :: "'a list \<Rightarrow> 'a list" where
  "uniq xs = foldl (\<lambda>acc x. if x \<in> set acc then acc else acc @ [x]) [] xs"

definition difference :: "'a list \<Rightarrow> 'a list \<Rightarrow> 'a list" where
  "difference xs values = filter (\<lambda>x. x \<notin> set values) xs"

text \<open>\<^verbatim>\<open>Number.prototype.toString\<close> for an array length or index: its decimal digits.\<close>

fun digitChar :: "nat \<Rightarrow> char" where
  "digitChar n = char_of (of_char CHR ''0'' + n)"

fun numberToString :: "nat \<Rightarrow> string" where
  "numberToString n =
     (if n < 10 then [digitChar n] else numberToString (n div 10) @ [digitChar (n mod 10)])"

section \<open>Objects used as dictionaries\<close>

text \<open>
  The source keeps \<^verbatim>\<open>newRunAfterNodeMap\<close> in an object literal \<^verbatim>\<open>{}\<close>, and reads it by
  \<^verbatim>\<open>newRunAfterNodeMap[node.id]\<close>.  Such a read finds an own property or else what the
  object inherits, and the test of the source, \<^verbatim>\<open>newRunAfters && newRunAfters.length > 0\<close>,
  is passed by inherited values too (the function \<^verbatim>\<open>Object\<close> under \<^verbatim>\<open>constructor\<close> has
  length 1).  What is inherited belongs to the host; the model takes it as a parameter:
  \<^item> \<open>objectInherits k\<close>: \<^verbatim>\<open>Object.prototype\<close> has under the name \<open>k\<close> (other than
    \<^verbatim>\<open>__proto__\<close>) a value that passes the test;
  \<^item> \<open>arrayInherits k\<close>: an array has under the name \<open>k\<close> (other than \<^verbatim>\<open>__proto__\<close>, its
    own \<^verbatim>\<open>length\<close> and its own elements), from \<^verbatim>\<open>Array.prototype\<close> or beyond, a value that
    passes the test.
  No inherited value is taken to be an array, and none to be read-only.
\<close>

record host =
  objectInherits :: "string \<Rightarrow> bool"
  arrayInherits :: "string \<Rightarrow> bool"

text \<open>
  The object: its own properties, each an array of names, and its prototype, which is
  \<^verbatim>\<open>Object.prototype\<close> (\<open>None\<close>) until an assignment to \<^verbatim>\<open>__proto__\<close> makes it an array.
\<close>

record runAfterNodeMap =
  own_entries :: "string \<rightharpoonup> string list"
  prototype_array :: "string list option"

definition emptyObject :: runAfterNodeMap where
  "emptyObject = \<lparr>own_entries = Map.empty, prototype_array = None\<rparr>"

text \<open>The element an array has under a property name: the name must be the decimal form of an index.\<close>

definition arrayElement :: "string list \<Rightarrow> string \<Rightarrow> string option" where
  "arrayElement a k =
     (case filter (\<lambda>i. numberToString i = k) [0..<length a] of
        [] \<Rightarrow> None
      | i # _ \<Rightarrow> Some (a ! i))"

text \<open>
  The name \<open>k\<close>, not an own property of the object, is found through its prototype, and
  the value found passes the test: with an array as prototype, a non-empty string among
  its elements does, its \<^verbatim>\<open>length\<close> (a number) does not.  Under \<^verbatim>\<open>__proto__\<close> the read
  gives the prototype itself, see \<open>lookupRunAfters\<close>.
\<close>

definition inheritedPasses :: "host \<Rightarrow> string list option \<Rightarrow> string \<Rightarrow> bool" where
  "inheritedPasses h p k =
     (k \<noteq> ''__proto__'' \<and>
      (case p of
         None \<Rightarrow> objectInherits h k
       | Some a \<Rightarrow>
           (case arrayElement a k of
              Some s \<Rightarrow> s \<noteq> []
            | None \<Rightarrow> k \<noteq> ''length'' \<and> arrayInherits h k)))"

text \<open>
  What \<^verbatim>\<open>newRunAfterNodeMap[k]\<close> gives: an array of names (an own property, or the
  prototype when \<open>k\<close> is \<^verbatim>\<open>__proto__\<close> and the prototype is an array), or another value, of
  which the model keeps whether it passes the test (\<^verbatim>\<open>undefined\<close> and \<^verbatim>\<open>Object.prototype\<close>
  do not).
\<close>

datatype found = FoundArray "string list" | FoundOther bool

definition lookupRunAfters :: "host \<Rightarrow> runAfterNodeMap \<Rightarrow> string \<Rightarrow> found" where
  "lookupRunAfters h m k =
     (if k = ''__proto__''
      then (case prototype_array m of None \<Rightarrow> FoundOther False | Some a \<Rightarrow> FoundArray a)
      else (case own_entries m k of
              Some l \<Rightarrow> FoundArray l
            | None \<Rightarrow> FoundOther (inheritedPasses h (prototype_array m) k)))"

text \<open>
  \<^verbatim>\<open>if (!Array.isArray(newRunAfterNodeMap[k])) newRunAfterNodeMap[k] = [];\<close> and then
  \<^verbatim>\<open>newRunAfterNodeMap[k].push(spacer)\<close>.  The assignment creates an own property, but
  under \<^verbatim>\<open>__proto__\<close> it sets the prototype, to the array that then takes the name.
\<close>

definition pushRunAfter :: "string \<Rightarrow> runAfterNodeMap \<Rightarrow> string \<Rightarrow> runAfterNodeMap" where
  "pushRunAfter spacer m p2pNodeId =
     (if p2pNodeId = ''__proto__''
      then m\<lparr>prototype_array :=
               Some ((case prototype_array m of None \<Rightarrow> [] | Some a \<Rightarrow> a) @ [spacer])\<rparr>
      else m\<lparr>own_entries :=
               (own_entries m)(p2pNodeId \<mapsto>
                  (case own_entries m p2pNodeId of None \<Rightarrow> [] | Some l \<Rightarrow> l) @ [spacer])\<rparr>)"

section \<open>Node creators\<close>

definition createGenericNode ::
  "layout \<Rightarrow> NodeType \<Rightarrow> int option \<Rightarrow> int option \<Rightarrow> string \<Rightarrow> 'v data \<Rightarrow> 'v node" where
  "createGenericNode c ty w h nm d =
     \<lparr>node_id = nm,
      node_data = d,
      height = (case h of None \<Rightarrow> NODE_HEIGHT c | Some h' \<Rightarrow> h'),
      width = (case w of None \<Rightarrow> NODE_WIDTH c | Some w' \<Rightarrow> w'),
      node_type = ty\<rparr>"

definition createTaskNode :: "layout \<Rightarrow> string \<Rightarrow> 'v data \<Rightarrow> 'v node" where
  "createTaskNode c = createGenericNode c TASK_NODE None None"

definition createSpacerNode :: "layout \<Rightarrow> string \<Rightarrow> 'v data \<Rightarrow> 'v node" where
  "createSpacerNode c = createGenericNode c SPACER_NODE (Some 0) None"

definition createTaskListNode :: "layout \<Rightarrow> string \<Rightarrow> 'v data \<Rightarrow> 'v node" where
  "createTaskListNode c = createGenericNode c TASK_LIST_NODE None None"

definition createInvalidTaskListNode :: "layout \<Rightarrow> string \<Rightarrow> 'v data \<Rightarrow> 'v node" where
  "createInvalidTaskListNode c = createGenericNode c INVALID_TASK_LIST_NODE None None"

definition createBuilderNode :: "layout \<Rightarrow> string \<Rightarrow> 'v data \<Rightarrow> 'v node" where
  "createBuilderNode c = createGenericNode c BUILDER_NODE None None"

definition createFinallyNode :: "layout \<Rightarrow> int \<Rightarrow> string \<Rightarrow> 'v data \<Rightarrow> 'v node" where
  "createFinallyNode c h =
     createGenericNode c FINALLY_NODE (Some (NODE_WIDTH c + FINALLY_NODE_PADDING c * 2)) (Some h)"

definition createBuilderFinallyNode :: "layout \<Rightarrow> int \<Rightarrow> string \<Rightarrow> 'v data \<Rightarrow> 'v node" where
  "createBuilderFinallyNode c h =
     createGenericNode c BUILDER_FINALLY_NODE
       (Some (NODE_WIDTH c + FINALLY_NODE_PADDING c * 2)) (Some h)"

text \<open>The \<^verbatim>\<open>switch\<close> of the source: three kinds have a case, every other kind takes the default.\<close>

fun getNodeCreator :: "NodeType \<Rightarrow> layout \<Rightarrow> string \<Rightarrow> 'v data \<Rightarrow> 'v node" where
  "getNodeCreator TASK_LIST_NODE = createTaskListNode"
| "getNodeCreator BUILDER_NODE = createBuilderNode"
| "getNodeCreator SPACER_NODE = createSpacerNode"
| "getNodeCreator TASK_NODE = createTaskNode"
| "getNodeCreator _ = createTaskNode"

section \<open>Parallel-to-parallel normalisation\<close>

record 'v ParallelNodeReference =
  ref_node :: "'v node"
  ref_runAfter :: "string list"
  atIndex :: nat

text \<open>
  The key of a node in \<^verbatim>\<open>multipleRunBeforeMap\<close>: its run-afters, sorted and joined by a
  bar.  \<^verbatim>\<open>reduce\<close> without a start value begins at the first element; the source calls
  it on lists of two elements or more only.
\<close>

definition runAfterKey :: "(string \<Rightarrow> string \<Rightarrow> int) \<Rightarrow> string list \<Rightarrow> string" where
  "runAfterKey lc ra =
     (case sort_cmp lc ra of
        [] \<Rightarrow> []
      | r # rs \<Rightarrow> foldl (\<lambda>str ref. str @ ''|'' @ ref) r rs)"

text \<open>
  \<^verbatim>\<open>multipleRunBeforeMap\<close> is an object read back with \<^verbatim>\<open>Object.values\<close>, so the order of
  its keys matters: it is an association list in insertion order (every key holds a bar,
  so none is an array index or a name objects inherit).  \<open>pushRef\<close> is \<^verbatim>\<open>acc[id].push(...)\<close>, creating the entry
  when the key is new.
\<close>

fun pushRef ::
  "(string \<times> 'v ParallelNodeReference list) list \<Rightarrow> string \<Rightarrow> 'v ParallelNodeReference
     \<Rightarrow> (string \<times> 'v ParallelNodeReference list) list" where
  "pushRef [] k r = [(k, [r])]"
| "pushRef ((k', rs) # acc) k r =
     (if k' = k then (k', rs @ [r]) # acc else (k', rs) # pushRef acc k r)"

definition collectStep ::
  "(string \<Rightarrow> string \<Rightarrow> int) \<Rightarrow> (string \<times> 'v ParallelNodeReference list) list
     \<Rightarrow> nat \<times> 'v node \<Rightarrow> (string \<times> 'v ParallelNodeReference list) list" where
  "collectStep lc acc p =
     (case p of (idx, n) \<Rightarrow>
        (case runAfter (task (node_data n)) of
           None \<Rightarrow> acc
         | Some ra \<Rightarrow>
             if length ra > 1
             then pushRef acc (runAfterKey lc ra)
                    \<lparr>ref_node = n, ref_runAfter = ra, atIndex = idx\<rparr>
             else acc))"

definition multipleRunBeforeMap ::
  "(string \<Rightarrow> string \<Rightarrow> int) \<Rightarrow> 'v node list
     \<Rightarrow> (string \<times> 'v ParallelNodeReference list) list" where
  "multipleRunBeforeMap lc ns = foldl (collectStep lc) [] (enumerate 0 ns)"

definition multiParallelToParallelList ::
  "(string \<Rightarrow> string \<Rightarrow> int) \<Rightarrow> 'v node list \<Rightarrow> 'v ParallelNodeReference list list" where
  "multiParallelToParallelList lc ns =
     filter (\<lambda>d. length d > 1) (map snd (multipleRunBeforeMap lc ns))"

definition p2pNames :: "'v ParallelNodeReference list \<Rightarrow> string list" where
  "p2pNames p2p = map (\<lambda>p2pData. node_id (ref_node p2pData)) p2p"

definition parallelSpacerName :: "'v ParallelNodeReference list \<Rightarrow> string" where
  "parallelSpacerName p2p = ''parallel-'' @ join ''-'' (p2pNames p2p)"

definition spacerTask :: "string \<Rightarrow> string list \<Rightarrow> 'v task" where
  "spacerTask nm ra =
     \<lparr>name = nm, runAfter = Some ra, isFinallyTask = None, finallyTasks = None,
      finallyListTasks = None, task_fields = None\<rparr>"

definition spacerData :: "string \<Rightarrow> string list \<Rightarrow> 'v data" where
  "spacerData nm ra =
     \<lparr>task = spacerTask nm ra, data_isFinallyTask = None, pipeline = None,
      pipelineRun = None, extra = None\<rparr>"

text \<open>
  One round of the \<^verbatim>\<open>forEach\<close> over the groups: the state is \<^verbatim>\<open>newNodes\<close> and
  \<^verbatim>\<open>newRunAfterNodeMap\<close>.  A group is never empty (the filter before keeps groups of two
  and more), so \<^verbatim>\<open>p2p[0]\<close> exists; the first equation is there for totality only.
\<close>

fun spacerStep ::
  "layout \<Rightarrow> 'v node list \<times> runAfterNodeMap \<Rightarrow> 'v ParallelNodeReference list
     \<Rightarrow> 'v node list \<times> runAfterNodeMap" where
  "spacerStep c (newNodes, m) [] = (newNodes, m)"
| "spacerStep c (newNodes, m) (r # rs) =
     (newNodes @
        [createSpacerNode c (parallelSpacerName (r # rs))
           (spacerData (parallelSpacerName (r # rs)) (ref_runAfter r))],
      foldl (pushRunAfter (parallelSpacerName (r # rs))) m (p2pNames (r # rs)))"

text \<open>
  The second \<^verbatim>\<open>forEach\<close>: a node for which the read gives a value that passes the test
  is recreated with that value as its run-afters, any other is carried over.  When the
  value is an array the new node is within the type; when it is an inherited function or
  string it is not.
\<close>

definition recreateNode :: "host \<Rightarrow> layout \<Rightarrow> runAfterNodeMap \<Rightarrow> 'v node \<Rightarrow> 'v mixed" where
  "recreateNode h c m n =
     (case lookupRunAfters h m (node_id n) of
        FoundArray newRunAfters \<Rightarrow>
          if length newRunAfters > 0
          then WellTyped
                 (getNodeCreator (node_type n) c (node_id n)
                    ((node_data n)\<lparr>task := (task (node_data n))\<lparr>runAfter := Some newRunAfters\<rparr>\<rparr>))
          else WellTyped n
      | FoundOther passes \<Rightarrow>
          if passes
          then IllTyped (getNodeCreator (node_type n) c (node_id n) (node_data n))
          else WellTyped n)"

definition handleParallelToParallelNodes ::
  "host \<Rightarrow> layout \<Rightarrow> (string \<Rightarrow> string \<Rightarrow> int) \<Rightarrow> 'v node list \<Rightarrow> 'v mixed list" where
  "handleParallelToParallelNodes h c lc ns =
     (let l = multiParallelToParallelList lc ns in
      if length l = 0 then map WellTyped ns
      else
        (case foldl (spacerStep c) ([], emptyObject) l of
           (newNodes, m) \<Rightarrow> map WellTyped newNodes @ map (recreateNode h c m) ns))"

definition taskData :: "'v task \<Rightarrow> 'v PipelineKind option \<Rightarrow> 'v option \<Rightarrow> 'v data" where
  "taskData t p r =
     \<lparr>task = t, data_isFinallyTask = None, pipeline = p, pipelineRun = r, extra = None\<rparr>"

text \<open>\<^verbatim>\<open>nodeList\<close> of \<^verbatim>\<open>tasksToNodes\<close>: one task node per task, named after it.\<close>

definition taskNodeList ::
  "layout \<Rightarrow> 'v task list \<Rightarrow> 'v PipelineKind option \<Rightarrow> 'v option \<Rightarrow> 'v node list" where
  "taskNodeList c taskList p r =
     map (\<lambda>t. createTaskNode c (name t) (taskData t p r)) taskList"

definition tasksToNodes ::
  "host \<Rightarrow> layout \<Rightarrow> (string \<Rightarrow> string \<Rightarrow> int) \<Rightarrow> 'v task list \<Rightarrow> 'v PipelineKind option
     \<Rightarrow> 'v option \<Rightarrow> 'v mixed list" where
  "tasksToNodes h c lc taskList p r =
     handleParallelToParallelNodes h c lc (taskNodeList c taskList p r)"

section \<open>Edges\<close>

definition mkEdge :: "string \<Rightarrow> string \<Rightarrow> edge" where
  "mkEdge tgt src =
     \<lparr>edge_id = src @ ''~to~'' @ tgt, edge_type = ''edge'', source = src, target = tgt\<rparr>"

text \<open>What the callback of \<^verbatim>\<open>nodes.map\<close> returns: \<^verbatim>\<open>null\<close> or the list of the node's edges.\<close>

definition nodeEdges :: "'v node \<Rightarrow> edge list option" where
  "nodeEdges n =
     (let ra = (case runAfter (task (node_data n)) of None \<Rightarrow> [] | Some l \<Rightarrow> l) in
      if length ra = 0 then None
      else Some (map (mkEdge (name (task (node_data n)))) ra))"

text \<open>
  \<^verbatim>\<open>_.flatten\<close> opens one level: an array gives its elements, \<^verbatim>\<open>null\<close> stays an element.
  The filter then drops the \<^verbatim>\<open>null\<close>s (an edge object is truthy).
\<close>

definition flatten1 :: "'a list option list \<Rightarrow> 'a option list" where
  "flatten1 xs = concat (map (\<lambda>x. case x of None \<Rightarrow> [None] | Some l \<Rightarrow> map Some l) xs)"

definition getEdgesFromNodes :: "'v node list \<Rightarrow> edge list" where
  "getEdgesFromNodes ns = List.map_filter (\<lambda>e. e) (flatten1 (map nodeEdges ns))"

section \<open>The finally node\<close>

definition getFinallyTaskHeight :: "layout \<Rightarrow> int \<Rightarrow> bool \<Rightarrow> int" where
  "getFinallyTaskHeight c allTasksLength disableBuilder =
     allTasksLength * NODE_HEIGHT c
     + (allTasksLength - 1) * FINALLY_NODE_VERTICAL_SPACING c
     + (if \<not> disableBuilder then NODE_HEIGHT c else 0)
     + FINALLY_NODE_PADDING c * 2"

definition getLastRegularTasks :: "'v node list \<Rightarrow> string list" where
  "getLastRegularTasks regularTasks =
     (let runAfters =
        uniq (foldl (\<lambda>acc n. case runAfter (task (node_data n)) of
                                None \<Rightarrow> acc
                              | Some ra \<Rightarrow> acc @ ra) [] regularTasks)
      in difference (map node_id regularTasks) runAfters)"

definition finallyTask :: "string \<Rightarrow> string list \<Rightarrow> 'v list \<Rightarrow> 'v task" where
  "finallyTask nm ra fts =
     \<lparr>name = nm, runAfter = Some ra, isFinallyTask = Some True,
      finallyTasks = Some (map (\<lambda>f. \<lparr>ft = f, disableTooltip = False\<rparr>) fts),
      finallyListTasks = None, task_fields = None\<rparr>"

text \<open>
  \<^verbatim>\<open>getFinallyTasksWithStatus\<close> lives in \<^verbatim>\<open>utils/pipeline-utils\<close>, outside the source at
  hand: it is the parameter \<open>gfs\<close>.  The optional \<^verbatim>\<open>pipeline\<close> is dereferenced without a
  guard (\<^verbatim>\<open>pipeline.spec?.finally\<close>), so an absent pipeline raises; an absent \<^verbatim>\<open>spec\<close> or
  \<^verbatim>\<open>finally\<close> is falsy, while an array, also the empty one, is truthy.
\<close>

definition connectFinallyTasksToNodes ::
  "layout \<Rightarrow> ('v PipelineKind \<Rightarrow> 'v \<Rightarrow> 'v list) \<Rightarrow> 'v node list \<Rightarrow> 'v PipelineKind option
     \<Rightarrow> 'v option \<Rightarrow> error + 'v node list" where
  "connectFinallyTasksToNodes c gfs ns p r =
     (case p of
        None \<Rightarrow> Inl TypeError
      | Some pl \<Rightarrow>
          (case spec pl of
             None \<Rightarrow> Inr ns
           | Some s \<Rightarrow>
               (case spec_finally s of
                  None \<Rightarrow> Inr ns
                | Some fin \<Rightarrow>
                    (let finallyTasks' = (case r of Some run \<Rightarrow> gfs pl run | None \<Rightarrow> fin);
                         regularRunAfters = getLastRegularTasks ns;
                         nm = ''finally-node'';
                         finallyGroupNode =
                           createFinallyNode c
                             (getFinallyTaskHeight c (int (length finallyTasks')) True) nm
                             \<lparr>task = finallyTask nm regularRunAfters finallyTasks',
                              data_isFinallyTask = Some True,
                              pipeline = p, pipelineRun = r, extra = None\<rparr>
                     in Inr (ns @ [finallyGroupNode])))))"

text \<open>
  \<^verbatim>\<open>getPipelineTasks\<close> is outside the source as well: the parameter \<open>gpt\<close>, giving the
  stages of the pipeline, which \<^verbatim>\<open>_.flatten\<close> concatenates.  When a task node left its
  type, \<^verbatim>\<open>connectFinallyTasksToNodes\<close> still returns (\<^verbatim>\<open>concat\<close> takes any value), and
  \<^verbatim>\<open>getEdgesFromNodes\<close> raises at \<^verbatim>\<open>runAfter.map\<close>, which a function or a string lacks.
\<close>

definition getTopologyNodesEdges ::
  "host \<Rightarrow> layout \<Rightarrow> (string \<Rightarrow> string \<Rightarrow> int)
     \<Rightarrow> ('v PipelineKind \<Rightarrow> 'v option \<Rightarrow> 'v task list list)
     \<Rightarrow> ('v PipelineKind \<Rightarrow> 'v \<Rightarrow> 'v list) \<Rightarrow> 'v PipelineKind \<Rightarrow> 'v option
     \<Rightarrow> error + 'v graph" where
  "getTopologyNodesEdges h c lc gpt gfs pl r =
     (let taskList = concat (gpt pl r) in
      case wellTyped (tasksToNodes h c lc taskList (Some pl) r) of
        None \<Rightarrow> Inl TypeError
      | Some taskNodes \<Rightarrow>
          (case connectFinallyTasksToNodes c gfs taskNodes (Some pl) r of
             Inl e \<Rightarrow> Inl e
           | Inr ns \<Rightarrow> Inr \<lparr>nodes = ns, edges = getEdgesFromNodes ns\<rparr>))"

section \<open>The builder's finally node\<close>

text \<open>The part of \<^verbatim>\<open>PipelineBuilderTaskGroup\<close> that \<^verbatim>\<open>useConnectFinally\<close> reads.\<close>

record 'v PipelineBuilderTaskGroup =
  tg_finallyTasks :: "'v list"
  tg_finallyListTasks :: "'v list"

text \<open>
  The node \<^verbatim>\<open>useConnectFinally\<close> builds.  The hook's own state (\<^verbatim>\<open>useTasks\<close>,
  \<^verbatim>\<open>useRef\<close>) and the closures it puts into the payload are the parameter \<open>payload\<close>;
  the node's id, size, kind and run-afters are computed as the source does.
\<close>

definition useConnectFinally ::
  "layout \<Rightarrow> 'v option \<Rightarrow> 'v node list \<Rightarrow> 'v PipelineBuilderTaskGroup \<Rightarrow> 'v node" where
  "useConnectFinally c payload ns taskGroup =
     (let allTasksLength =
            length (tg_finallyTasks taskGroup) + length (tg_finallyListTasks taskGroup);
          finallyNodeName =
            ''finally-node-'' @ numberToString (length (tg_finallyTasks taskGroup))
              @ ''-'' @ numberToString (length (tg_finallyListTasks taskGroup));
          regularRunAfters = getLastRegularTasks ns
      in createBuilderFinallyNode c (getFinallyTaskHeight c (int allTasksLength) False)
           finallyNodeName
           \<lparr>task =
              \<lparr>name = finallyNodeName, runAfter = Some regularRunAfters,
               isFinallyTask = Some True,
               finallyTasks =
                 Some (map (\<lambda>f. \<lparr>ft = f, disableTooltip = True\<rparr>) (tg_finallyTasks taskGroup)),
               finallyListTasks = Some (tg_finallyListTasks taskGroup),
               task_fields = None\<rparr>,
            data_isFinallyTask = Some True, pipeline = None, pipelineRun = None,
            extra = payload\<rparr>)"

section \<open>Notions used in the statements\<close>

text \<open>The run-afters of a node, an absent list read as the empty one.\<close>

definition runAfters :: "'v node \<Rightarrow> string list" where
  "runAfters n = (case runAfter (task (node_data n)) of None \<Rightarrow> [] | Some l \<Rightarrow> l)"

text \<open>A node belongs to the group of key \<open>k\<close>: it has two run-afters or more, and they give \<open>k\<close>.\<close>

definition inGroup :: "(string \<Rightarrow> string \<Rightarrow> int) \<Rightarrow> string \<Rightarrow> 'v node \<Rightarrow> bool" where
  "inGroup lc k n =
     (case runAfter (task (node_data n)) of
        None \<Rightarrow> False
      | Some ra \<Rightarrow> length ra > 1 \<and> runAfterKey lc ra = k)"

text \<open>The reference the first loop stores for the node at an index.\<close>

definition mkRef :: "nat \<times> 'v node \<Rightarrow> 'v ParallelNodeReference" where
  "mkRef p = \<lparr>ref_node = snd p, ref_runAfter = runAfters (snd p), atIndex = fst p\<rparr>"

text \<open>The spacer the second loop creates for a group, and the ids of all the spacers.\<close>

definition spacerOf :: "layout \<Rightarrow> 'v ParallelNodeReference list \<Rightarrow> 'v node" where
  "spacerOf c p2p =
     createSpacerNode c (parallelSpacerName p2p)
       (spacerData (parallelSpacerName p2p) (ref_runAfter (hd p2p)))"

definition spacerIds :: "(string \<Rightarrow> string \<Rightarrow> int) \<Rightarrow> 'v node list \<Rightarrow> string list" where
  "spacerIds lc ns = map parallelSpacerName (multiParallelToParallelList lc ns)"

text \<open>The key of a group, read off its first member.\<close>

definition keyOf :: "(string \<Rightarrow> string \<Rightarrow> int) \<Rightarrow> 'v ParallelNodeReference list \<Rightarrow> string" where
  "keyOf lc g = runAfterKey lc (runAfters (ref_node (hd g)))"

text \<open>The pipeline has a \<^verbatim>\<open>spec.finally\<close> field (an array, possibly empty).\<close>

definition hasFinally :: "'v PipelineKind \<Rightarrow> bool" where
  "hasFinally pl = (case spec pl of None \<Rightarrow> False | Some s \<Rightarrow> spec_finally s \<noteq> None)"

section \<open>Sample inputs\<close>

text \<open>Concrete values at which the theorems below are instantiated.\<close>

text \<open>
  A host as ECMAScript 2023 with its Annex B describes it: the names under which
  \<^verbatim>\<open>Object.prototype\<close> and \<^verbatim>\<open>Array.prototype\<close> hold a function of one parameter or more.
\<close>

definition objectPrototypeNames :: "string list" where
  "objectPrototypeNames =
     [''constructor'', ''hasOwnProperty'', ''isPrototypeOf'', ''propertyIsEnumerable'',
      ''__defineGetter__'', ''__defineSetter__'', ''__lookupGetter__'', ''__lookupSetter__'']"

definition arrayPrototypeNames :: "string list" where
  "arrayPrototypeNames =
     [''at'', ''concat'', ''constructor'', ''copyWithin'', ''every'', ''fill'', ''filter'',
      ''find'', ''findIndex'', ''findLast'', ''findLastIndex'', ''flatMap'', ''forEach'',
      ''includes'', ''indexOf'', ''join'', ''lastIndexOf'', ''map'', ''push'', ''reduce'',
      ''reduceRight'', ''slice'', ''some'', ''sort'', ''splice'', ''toSorted'', ''toSpliced'',
      ''unshift'', ''with'', ''hasOwnProperty'', ''isPrototypeOf'', ''propertyIsEnumerable'',
      ''__defineGetter__'', ''__defineSetter__'', ''__lookupGetter__'', ''__lookupSetter__'']"

definition exampleHost :: host where
  "exampleHost =
     \<lparr>objectInherits = (\<lambda>k. k \<in> set objectPrototypeNames),
      arrayInherits = (\<lambda>k. k \<in> set arrayPrototypeNames)\<rparr>"

definition exampleLayout :: layout where
  "exampleLayout =
     \<lparr>NODE_HEIGHT = 30, NODE_WIDTH = 120, FINALLY_NODE_PADDING = 30,
      FINALLY_NODE_VERTICAL_SPACING = 20\<rparr>"

definition exampleTask :: "string \<Rightarrow> string list option \<Rightarrow> unit task" where
  "exampleTask nm ra =
     \<lparr>name = nm, runAfter = ra, isFinallyTask = None, finallyTasks = None,
      finallyListTasks = None, task_fields = None\<rparr>"

definition exampleNode :: "string \<Rightarrow> string list option \<Rightarrow> unit node" where
  "exampleNode nm ra = createTaskNode exampleLayout nm (taskData (exampleTask nm ra) None None)"

text \<open>An invalid-task placeholder as \<^verbatim>\<open>newInvalidListNode\<close> of the builder creates it.\<close>

definition exampleInvalidNode :: "string \<Rightarrow> string list \<Rightarrow> unit node" where
  "exampleInvalidNode nm ra =
     createInvalidTaskListNode exampleLayout nm
       \<lparr>task = exampleTask nm (Some ra), data_isFinallyTask = None, pipeline = None,
        pipelineRun = None, extra = Some ()\<rparr>"

definition examplePipeline :: "unit list option \<Rightarrow> unit PipelineKind" where
  "examplePipeline fin =
     \<lparr>spec = Some \<lparr>spec_finally = fin, spec_fields = None\<rparr>, pipeline_fields = None\<rparr>"

definition exampleSinkNodes :: "unit node list" where
  "exampleSinkNodes =
     [exampleNode ''A'' (Some []), exampleNode ''B'' (Some [''A'']),
      exampleNode ''C'' (Some [''A''])]"

definition exampleStages :: "unit PipelineKind \<Rightarrow> unit option \<Rightarrow> unit task list list" where
  "exampleStages p r =
     [[exampleTask ''build'' (Some [])], [exampleTask ''test'' (Some [''build''])],
      [exampleTask ''deploy'' (Some [''test''])]]"

definition exampleParallelStages ::
  "unit PipelineKind \<Rightarrow> unit option \<Rightarrow> unit task list list" where
  "exampleParallelStages p r =
     [[exampleTask ''x'' None, exampleTask ''y'' None],
      [exampleTask ''A'' (Some [''x'', ''y'']), exampleTask ''B'' (Some [''x'', ''y''])]]"

definition exampleTaskGroup :: "unit PipelineBuilderTaskGroup" where
  "exampleTaskGroup = \<lparr>tg_finallyTasks = [(), ()], tg_finallyListTasks = [()]\<rparr>"

text \<open>A task that has the id of the spacer of its neighbours, and two groups whose joined ids agree.\<close>

definition exampleSpacerNameStages ::
  "unit PipelineKind \<Rightarrow> unit option \<Rightarrow> unit task list list" where
  "exampleSpacerNameStages p r =
     [[exampleTask ''x'' None, exampleTask ''y'' None],
      [exampleTask ''A'' (Some [''x'', ''y'']), exampleTask ''B'' (Some [''x'', ''y'']),
       exampleTask ''parallel-A-B'' None]]"

definition exampleDashStages ::
  "unit PipelineKind \<Rightarrow> unit option \<Rightarrow> unit task list list" where
  "exampleDashStages p r =
     [[exampleTask ''x'' None, exampleTask ''y'' None, exampleTask ''z'' None],
      [exampleTask ''a-b'' (Some [''x'', ''y'']), exampleTask ''c'' (Some [''x'', ''y'']),
       exampleTask ''a'' (Some [''x'', ''z'']), exampleTask ''b-c'' (Some [''x'', ''z''])]]"

definition exampleFinallyNameStages ::
  "unit PipelineKind \<Rightarrow> unit option \<Rightarrow> unit task list list" where
  "exampleFinallyNameStages p r = [[exampleTask ''finally-node'' None]]"

definition exampleConstructorStages ::
  "unit PipelineKind \<Rightarrow> unit option \<Rightarrow> unit task list list" where
  "exampleConstructorStages p r =
     [[exampleTask ''x'' None, exampleTask ''y'' None],
      [exampleTask ''A'' (Some [''x'', ''y'']), exampleTask ''B'' (Some [''x'', ''y'']),
       exampleTask ''constructor'' (Some [''x''])]]"

lemmas example_defs =
  exampleLayout_def exampleTask_def exampleNode_def exampleInvalidNode_def examplePipeline_def
  createTaskNode_def createInvalidTaskListNode_def createGenericNode_def taskData_def

lemmas creator_defs =
  createTaskListNode_def createBuilderNode_def createSpacerNode_def createTaskNode_def
  createGenericNode_def

section \<open>The first loop: grouping by key\<close>

lemma map_of_pushRef:
  "map_of (pushRef acc k r) =
     (map_of acc)(k \<mapsto> (case map_of acc k of None \<Rightarrow> [] | Some rs \<Rightarrow> rs) @ [r])"
  by (induction acc k r rule: pushRef.induct) (auto simp: fun_eq_iff)

lemma keys_pushRef:
  "map fst (pushRef acc k r) = (if k \<in> fst ` set acc then map fst acc else map fst acc @ [k])"
  by (induction acc k r rule: pushRef.induct) auto

lemma distinct_pushRef:
  "distinct (map fst acc) \<Longrightarrow> distinct (map fst (pushRef acc k r))"
  by (simp add: keys_pushRef)

lemma collectStep_cases:
  "collectStep lc acc (i, n) =
     (if 1 < length (runAfters n)
      then pushRef acc (runAfterKey lc (runAfters n)) (mkRef (i, n)) else acc)"
  by (auto simp: collectStep_def runAfters_def mkRef_def split: option.splits)

lemma inGroup_runAfters:
  "inGroup lc k n \<longleftrightarrow> 1 < length (runAfters n) \<and> runAfterKey lc (runAfters n) = k"
  by (auto simp: inGroup_def runAfters_def split: option.splits)

lemma distinct_collect:
  "distinct (map fst acc) \<Longrightarrow> distinct (map fst (foldl (collectStep lc) acc ps))"
proof (induction ps arbitrary: acc)
  case Nil
  then show ?case by simp
next
  case (Cons p ps)
  obtain i n where p: "p = (i, n)" by (cases p)
  have "distinct (map fst (collectStep lc acc p))"
    using Cons.prems by (simp add: p collectStep_cases distinct_pushRef del: distinct_map)
  then show ?case using Cons.IH by simp
qed

text \<open>After the loop, the entry of a key lists the nodes of that key, in the order of the input.\<close>

lemma map_of_collect:
  "map_of (foldl (collectStep lc) acc ps) k =
     (if filter (\<lambda>p. inGroup lc k (snd p)) ps = [] then map_of acc k
      else Some ((case map_of acc k of None \<Rightarrow> [] | Some rs \<Rightarrow> rs)
                   @ map mkRef (filter (\<lambda>p. inGroup lc k (snd p)) ps)))"
proof (induction ps arbitrary: acc)
  case Nil
  then show ?case by simp
next
  case (Cons p ps)
  obtain i n where p: "p = (i, n)" by (cases p)
  show ?case
    unfolding foldl_Cons Cons.IH
    by (auto simp: p collectStep_cases map_of_pushRef inGroup_runAfters split: option.splits)
qed

lemma map_of_multipleRunBeforeMap:
  "map_of (multipleRunBeforeMap lc ns) k =
     (if filter (\<lambda>p. inGroup lc k (snd p)) (enumerate 0 ns) = [] then None
      else Some (map mkRef (filter (\<lambda>p. inGroup lc k (snd p)) (enumerate 0 ns))))"
  by (simp add: multipleRunBeforeMap_def map_of_collect)

lemma distinct_multipleRunBeforeMap: "distinct (map fst (multipleRunBeforeMap lc ns))"
  by (simp add: multipleRunBeforeMap_def distinct_collect del: distinct_map)

lemma snd_filter_enumerate:
  "map snd (filter (\<lambda>p. P (snd p)) (enumerate j xs)) = filter P xs"
  by (induction xs arbitrary: j) auto

lemma ref_node_mkRef: "map ref_node (map mkRef ps) = map snd ps"
  by (simp add: mkRef_def comp_def)

lemma group_of_key:
  assumes "1 < length (filter (inGroup lc k) ns)"
  shows "\<exists>g \<in> set (multiParallelToParallelList lc ns). map ref_node g = filter (inGroup lc k) ns"
proof -
  let ?ps = "filter (\<lambda>p. inGroup lc k (snd p)) (enumerate 0 ns)"
  have len: "length ?ps = length (filter (inGroup lc k) ns)"
    by (metis snd_filter_enumerate length_map)
  then have ne: "?ps \<noteq> []" using assms by auto
  then have m: "map_of (multipleRunBeforeMap lc ns) k = Some (map mkRef ?ps)"
    by (simp add: map_of_multipleRunBeforeMap)
  then have "(k, map mkRef ?ps) \<in> set (multipleRunBeforeMap lc ns)"
    by (rule map_of_SomeD)
  then have "map mkRef ?ps \<in> set (multiParallelToParallelList lc ns)"
    using assms len by (force simp: multiParallelToParallelList_def)
  moreover have "map ref_node (map mkRef ?ps) = filter (inGroup lc k) ns"
    unfolding ref_node_mkRef by (rule snd_filter_enumerate)
  ultimately show ?thesis by blast
qed




section \<open>The second loop: spacers and the rewritten nodes\<close>

lemma fst_spacerStep:
  "p2p \<noteq> [] \<Longrightarrow> fst (spacerStep c (newNodes, m) p2p) = newNodes @ [spacerOf c p2p]"
  by (cases p2p) (auto simp: spacerOf_def)

lemma fst_foldl_spacerStep:
  "\<forall>g \<in> set l. g \<noteq> [] \<Longrightarrow>
     fst (foldl (spacerStep c) (newNodes, m) l) = newNodes @ map (spacerOf c) l"
proof (induction l arbitrary: newNodes m)
  case Nil
  then show ?case by simp
next
  case (Cons g l)
  obtain nn m' where s: "spacerStep c (newNodes, m) g = (nn, m')"
    by (cases "spacerStep c (newNodes, m) g")
  have "nn = newNodes @ [spacerOf c g]"
    using fst_spacerStep[of g c newNodes m] Cons.prems s by simp
  then show ?case using Cons s by simp
qed

text \<open>Every group the second loop sees has two members or more: \<^verbatim>\<open>p2p[0]\<close> is defined.\<close>

lemma groups_nonempty: "g \<in> set (multiParallelToParallelList lc ns) \<Longrightarrow> 1 < length g"
  by (simp add: multiParallelToParallelList_def)

lemma node_id_getNodeCreator [simp]: "node_id (getNodeCreator ty c nm d) = nm"
  by (cases ty) (simp_all add: creator_defs)

lemma node_data_getNodeCreator [simp]: "node_data (getNodeCreator ty c nm d) = d"
  by (cases ty) (simp_all add: creator_defs)


lemma node_id_recreateNode [simp]: "node_id (mixed_node (recreateNode h c m n)) = node_id n"
  by (simp add: recreateNode_def split: found.splits)

lemma wellTyped_nodes: "wellTyped xs = Some ns \<Longrightarrow> ns = map mixed_node xs"
  by (induction xs arbitrary: ns rule: wellTyped.induct) auto

lemma wellTyped_map [simp]: "wellTyped (map WellTyped ns) = Some ns"
  by (induction ns) auto

lemma wellTyped_append:
  "wellTyped (xs @ ys) =
     (case wellTyped xs of
        None \<Rightarrow> None
      | Some ns \<Rightarrow> map_option ((@) ns) (wellTyped ys))"
  by (induction xs rule: wellTyped.induct; cases "wellTyped ys") (auto split: option.splits)

lemma handle_shape:
  "handleParallelToParallelNodes h c lc ns =
     (if multiParallelToParallelList lc ns = [] then map WellTyped ns
      else map WellTyped (map (spacerOf c) (multiParallelToParallelList lc ns))
           @ map (recreateNode h c
                    (snd (foldl (spacerStep c) ([], emptyObject)
                            (multiParallelToParallelList lc ns)))) ns)"
proof -
  have "fst (foldl (spacerStep c) ([], emptyObject) (multiParallelToParallelList lc ns))
          = map (spacerOf c) (multiParallelToParallelList lc ns)"
    using fst_foldl_spacerStep[of "multiParallelToParallelList lc ns" c "[]" emptyObject]
      groups_nonempty[of _ lc ns]
    by fastforce
  then show ?thesis
    by (auto simp: handleParallelToParallelNodes_def Let_def split: prod.splits)
qed

lemma handle_ids:
  "map (\<lambda>x. node_id (mixed_node x)) (handleParallelToParallelNodes h c lc ns)
     = spacerIds lc ns @ map node_id ns"
  by (simp add: handle_shape spacerIds_def spacerOf_def createSpacerNode_def
      createGenericNode_def comp_def)




section \<open>Parallel normalisation of one group of two\<close>




section \<open>The id of a spacer\<close>

lemma spacer_in_output:
  assumes "1 < length (filter (inGroup lc k) ns)"
  shows "\<exists>sp. WellTyped sp \<in> set (handleParallelToParallelNodes h c lc ns)
           \<and> node_type sp = SPACER_NODE
           \<and> node_id sp = ''parallel-'' @ join ''-'' (map node_id (filter (inGroup lc k) ns))"
proof -
  from group_of_key[OF assms] obtain g where g: "g \<in> set (multiParallelToParallelList lc ns)"
    and m: "map ref_node g = filter (inGroup lc k) ns" by blast
  have nm: "p2pNames g = map node_id (filter (inGroup lc k) ns)"
    unfolding m[symmetric] by (simp add: p2pNames_def)
  have "multiParallelToParallelList lc ns \<noteq> []" using g by auto
  then have "WellTyped (spacerOf c g) \<in> set (handleParallelToParallelNodes h c lc ns)"
    using g by (simp add: handle_shape)
  moreover have "node_type (spacerOf c g) = SPACER_NODE"
    "node_id (spacerOf c g)
       = ''parallel-'' @ join ''-'' (map node_id (filter (inGroup lc k) ns))"
    by (simp_all add: spacerOf_def createSpacerNode_def createGenericNode_def
        parallelSpacerName_def nm)
  ultimately show ?thesis by blast
qed

text \<open>
  C3 (as the code has it).  For every key \<open>k\<close> that two or more nodes of the input share,
  the output of \<^verbatim>\<open>handleParallelToParallelNodes\<close> holds a spacer whose id is
  \<^verbatim>\<open>parallel-\<close> followed by the ids of those nodes joined by \<^verbatim>\<open>-\<close>, in the order the nodes
  have in the input list; the ids are not sorted.  So a second input in which the members
  of the group have the same ids in the same order gets a spacer of the same id.
\<close>

theorem spacer_id_follows_input_order:
  assumes "1 < length (filter (inGroup lc k) ns)"
    and "map node_id (filter (inGroup lc k) ns') = map node_id (filter (inGroup lc k) ns)"
  shows "\<exists>sp sp'.
           WellTyped sp \<in> set (handleParallelToParallelNodes h c lc ns)
         \<and> WellTyped sp' \<in> set (handleParallelToParallelNodes h' c' lc ns')
         \<and> node_type sp = SPACER_NODE \<and> node_type sp' = SPACER_NODE
         \<and> node_id sp = ''parallel-'' @ join ''-'' (map node_id (filter (inGroup lc k) ns))
         \<and> node_id sp' = node_id sp"
proof -
  have "length (filter (inGroup lc k) ns') = length (filter (inGroup lc k) ns)"
    using assms(2) by (metis length_map)
  then have 2: "1 < length (filter (inGroup lc k) ns')" using assms(1) by simp
  from spacer_in_output[OF assms(1), of h c] obtain sp where
    sp: "WellTyped sp \<in> set (handleParallelToParallelNodes h c lc ns)"
      "node_type sp = SPACER_NODE"
      "node_id sp = ''parallel-'' @ join ''-'' (map node_id (filter (inGroup lc k) ns))"
    by blast
  from spacer_in_output[OF 2, of h' c'] obtain sp' where
    sp': "WellTyped sp' \<in> set (handleParallelToParallelNodes h' c' lc ns')"
      "node_type sp' = SPACER_NODE"
      "node_id sp' = ''parallel-'' @ join ''-'' (map node_id (filter (inGroup lc k) ns'))"
    by blast
  have "node_id sp' = node_id sp" unfolding sp(3) sp'(3) assms(2) ..
  with sp sp' show ?thesis by blast
qed

text \<open>The same two members in the two orders: the spacer ids differ.\<close>

theorem spacer_id_counterexample:
  "map (\<lambda>x. node_id (mixed_node x))
     (handleParallelToParallelNodes exampleHost exampleLayout codeUnitCompare
       [exampleNode ''A'' (Some [''x'', ''y'']), exampleNode ''B'' (Some [''x'', ''y''])])
     = [''parallel-A-B'', ''A'', ''B'']
   \<and> map (\<lambda>x. node_id (mixed_node x))
     (handleParallelToParallelNodes exampleHost exampleLayout codeUnitCompare
       [exampleNode ''B'' (Some [''x'', ''y'']), exampleNode ''A'' (Some [''x'', ''y''])])
     = [''parallel-B-A'', ''B'', ''A'']
   \<and> ''parallel-B-A'' \<noteq> ''parallel-A-B''"
  by code_simp

text \<open>Members \<open>B\<close> and \<open>A\<close>, with a node between them in one list and a node in front in the other.\<close>

theorem spacer_id_follows_input_order_witness:
  "\<exists>sp sp'.
      WellTyped sp \<in> set (handleParallelToParallelNodes exampleHost exampleLayout codeUnitCompare
         [exampleNode ''B'' (Some [''y'', ''x'']), exampleNode ''C'' (Some [''x'']),
          exampleNode ''A'' (Some [''x'', ''y''])])
    \<and> WellTyped sp' \<in> set (handleParallelToParallelNodes exampleHost exampleLayout codeUnitCompare
         [exampleNode ''D'' None, exampleNode ''B'' (Some [''x'', ''y'']),
          exampleNode ''A'' (Some [''y'', ''x''])])
    \<and> node_type sp = SPACER_NODE \<and> node_type sp' = SPACER_NODE
    \<and> node_id sp = ''parallel-B-A'' \<and> node_id sp' = ''parallel-B-A''"
proof -
  let ?ns = "[exampleNode ''B'' (Some [''y'', ''x'']), exampleNode ''C'' (Some [''x'']),
          exampleNode ''A'' (Some [''x'', ''y''])]"
  let ?ns' = "[exampleNode ''D'' None, exampleNode ''B'' (Some [''x'', ''y'']),
          exampleNode ''A'' (Some [''y'', ''x''])]"
  have f: "map node_id (filter (inGroup codeUnitCompare ''x|y'') ?ns) = [''B'', ''A'']"
    by (simp add: inGroup_def example_defs runAfterKey_def sort_cmp_def)
  have f': "map node_id (filter (inGroup codeUnitCompare ''x|y'') ?ns') = [''B'', ''A'']"
    by (simp add: inGroup_def example_defs runAfterKey_def sort_cmp_def)
  have 1: "1 < length (filter (inGroup codeUnitCompare ''x|y'') ?ns)"
    using f by (metis length_map length_Cons list.size(3) One_nat_def lessI)
  have 2: "map node_id (filter (inGroup codeUnitCompare ''x|y'') ?ns')
         = map node_id (filter (inGroup codeUnitCompare ''x|y'') ?ns)"
    unfolding f f' ..
  from spacer_id_follows_input_order[OF 1 2, of exampleHost exampleLayout exampleHost exampleLayout]
  obtain sp sp' where
    "WellTyped sp \<in> set (handleParallelToParallelNodes exampleHost exampleLayout codeUnitCompare ?ns)"
    "WellTyped sp' \<in> set (handleParallelToParallelNodes exampleHost exampleLayout codeUnitCompare ?ns')"
    "node_type sp = SPACER_NODE" "node_type sp' = SPACER_NODE"
    "node_id sp = ''parallel-'' @ join ''-'' [''B'', ''A'']" "node_id sp' = node_id sp"
    unfolding f by blast
  then show ?thesis by auto
qed

section \<open>What recreating a node keeps\<close>

text \<open>
  C5.  The claim holds for task, task-list, builder and spacer nodes; the \<^verbatim>\<open>switch\<close> of
  \<^verbatim>\<open>getNodeCreator\<close> has no case for \<^verbatim>\<open>INVALID_TASK_LIST_NODE\<close>, so an invalid-task
  placeholder that is a member of a group comes back as a plain task node.  Two
  placeholders, both after \<open>x\<close> and \<open>y\<close>, evaluated:
\<close>

theorem invalid_task_list_node_becomes_task_node:
  "map node_type
     [exampleInvalidNode ''a'' [''x'', ''y''], exampleInvalidNode ''b'' [''x'', ''y'']]
     = [INVALID_TASK_LIST_NODE, INVALID_TASK_LIST_NODE]
   \<and> map_option (map node_type)
       (wellTyped (handleParallelToParallelNodes exampleHost exampleLayout codeUnitCompare
          [exampleInvalidNode ''a'' [''x'', ''y''], exampleInvalidNode ''b'' [''x'', ''y'']]))
     = Some [SPACER_NODE, TASK_NODE, TASK_NODE]"
  by code_simp

text \<open>For the kinds that have a case, a recreated node of the default size differs in its run-afters only.\<close>

lemma recreateNode_frame:
  assumes "lookupRunAfters h m (node_id n) = FoundArray (s # ss)"
    and "node_type n \<in> {TASK_NODE, TASK_LIST_NODE, BUILDER_NODE}"
    and "height n = NODE_HEIGHT c" and "width n = NODE_WIDTH c"
  shows "recreateNode h c m n =
           WellTyped
             (n\<lparr>node_data :=
                  (node_data n)\<lparr>task := (task (node_data n))\<lparr>runAfter := Some (s # ss)\<rparr>\<rparr>\<rparr>)"
  using assms by (cases "node_type n") (auto simp: recreateNode_def creator_defs)

section \<open>Edges\<close>

lemma map_filter_flatten1:
  "List.map_filter (\<lambda>e. e) (flatten1 xs)
     = concat (map (\<lambda>x. case x of None \<Rightarrow> [] | Some l \<Rightarrow> l) xs)"
  by (induction xs) (auto simp: flatten1_def List.map_filter_def comp_def split: option.splits)

lemma getEdgesFromNodes_concat:
  "getEdgesFromNodes ns =
     concat (map (\<lambda>n. map (mkEdge (name (task (node_data n)))) (runAfters n)) ns)"
  unfolding getEdgesFromNodes_def map_filter_flatten1
  by (induction ns) (auto simp: nodeEdges_def runAfters_def Let_def split: option.splits)

text \<open>
  C6.  \<^verbatim>\<open>getEdgesFromNodes\<close> returns, node after node, one edge for each run-after of the
  node: its id is \<^verbatim>\<open><source>~to~<target>\<close>, its source the run-after and its target the
  name of the node's task.  So the number of edges is the sum of the lengths of the
  run-after lists, and nodes whose list is empty or absent add nothing.
\<close>

theorem getEdgesFromNodes_one_edge_per_reference:
  "getEdgesFromNodes ns =
     concat (map (\<lambda>n. map (\<lambda>src. \<lparr>edge_id = src @ ''~to~'' @ name (task (node_data n)),
                                   edge_type = ''edge'', source = src,
                                   target = name (task (node_data n))\<rparr>) (runAfters n)) ns)
   \<and> length (getEdgesFromNodes ns) = sum_list (map (\<lambda>n. length (runAfters n)) ns)
   \<and> getEdgesFromNodes (filter (\<lambda>n. runAfters n \<noteq> []) ns) = getEdgesFromNodes ns"
proof -
  have a: "getEdgesFromNodes ns =
     concat (map (\<lambda>n. map (\<lambda>src. \<lparr>edge_id = src @ ''~to~'' @ name (task (node_data n)),
                                   edge_type = ''edge'', source = src,
                                   target = name (task (node_data n))\<rparr>) (runAfters n)) ns)"
    by (simp add: getEdgesFromNodes_concat mkEdge_def[abs_def])
  have b: "length (getEdgesFromNodes ns) = sum_list (map (\<lambda>n. length (runAfters n)) ns)"
    by (simp add: getEdgesFromNodes_concat length_concat comp_def)
  have c: "getEdgesFromNodes (filter (\<lambda>n. runAfters n \<noteq> []) ns) = getEdgesFromNodes ns"
    unfolding getEdgesFromNodes_concat by (induction ns) auto
  from a b c show ?thesis by blast
qed

theorem getEdgesFromNodes_witness:
  "map edge_id (getEdgesFromNodes
       [exampleNode ''build'' (Some []), exampleNode ''test'' (Some [''build'']),
        exampleNode ''deploy'' None, exampleNode ''report'' (Some [''test'', ''build''])])
     = [''build~to~test'', ''test~to~report'', ''build~to~report'']
   \<and> length (getEdgesFromNodes
       [exampleNode ''build'' (Some []), exampleNode ''test'' (Some [''build'']),
        exampleNode ''deploy'' None, exampleNode ''report'' (Some [''test'', ''build''])]) = 3"
  using getEdgesFromNodes_one_edge_per_reference
    [of "[exampleNode ''build'' (Some []), exampleNode ''test'' (Some [''build'']),
        exampleNode ''deploy'' None, exampleNode ''report'' (Some [''test'', ''build''])]"]
  by (simp add: runAfters_def example_defs)

section \<open>The finally node of the viewer\<close>

lemma set_uniq_foldl:
  "set (foldl (\<lambda>acc x. if x \<in> set acc then acc else acc @ [x]) a xs) = set a \<union> set xs"
  by (induction xs arbitrary: a) auto

lemma set_uniq [simp]: "set (uniq xs) = set xs"
  by (simp add: uniq_def set_uniq_foldl)

lemma set_collect_runAfters:
  "set (foldl (\<lambda>acc n. case runAfter (task (node_data n)) of
                          None \<Rightarrow> acc
                        | Some ra \<Rightarrow> acc @ ra) a ns)
     = set a \<union> (\<Union>n\<in>set ns. set (runAfters n))"
  by (induction ns arbitrary: a) (auto simp: runAfters_def split: option.splits)

lemma getLastRegularTasks_filter:
  "getLastRegularTasks ns =
     filter (\<lambda>i. i \<notin> (\<Union>n\<in>set ns. set (runAfters n))) (map node_id ns)"
  by (simp add: getLastRegularTasks_def difference_def set_collect_runAfters Let_def)

text \<open>
  C2 (as the code has it).  When the pipeline has a non-empty finally list,
  \<^verbatim>\<open>connectFinallyTasksToNodes\<close> appends one node, \<^verbatim>\<open>finally-node\<close>, whose run-afters are
  the ids of the nodes that occur in no node's run-afters, in the order of the list and as
  often as the list has the id: as a set, the node ids minus all run-afters.  Only the
  collected run-afters are deduplicated; the list has no duplicates when the node ids
  have none.
\<close>

theorem finally_node_runs_after_sinks:
  assumes "spec pl = Some s" and "spec_finally s = Some fin" and "fin \<noteq> []"
  shows "\<exists>g. connectFinallyTasksToNodes c gfs ns (Some pl) r = Inr (ns @ [g])
     \<and> node_id g = ''finally-node'' \<and> node_type g = FINALLY_NODE
     \<and> runAfters g = filter (\<lambda>i. i \<notin> (\<Union>n\<in>set ns. set (runAfters n))) (map node_id ns)
     \<and> set (runAfters g) = node_id ` set ns - (\<Union>n\<in>set ns. set (runAfters n))
     \<and> (distinct (map node_id ns) \<longrightarrow> distinct (runAfters g))"
proof -
  define fts where "fts = (case r of Some run \<Rightarrow> gfs pl run | None \<Rightarrow> fin)"
  define g where "g = createFinallyNode c (getFinallyTaskHeight c (int (length fts)) True)
      ''finally-node''
      \<lparr>task = finallyTask ''finally-node'' (getLastRegularTasks ns) fts,
       data_isFinallyTask = Some True, pipeline = Some pl, pipelineRun = r, extra = None\<rparr>"
  have res: "connectFinallyTasksToNodes c gfs ns (Some pl) r = Inr (ns @ [g])"
    using assms(1,2) by (simp add: connectFinallyTasksToNodes_def Let_def g_def fts_def)
  have g1: "node_id g = ''finally-node''" "node_type g = FINALLY_NODE"
    by (simp_all add: g_def createFinallyNode_def createGenericNode_def)
  have g2: "runAfters g
              = filter (\<lambda>i. i \<notin> (\<Union>n\<in>set ns. set (runAfters n))) (map node_id ns)"
    unfolding getLastRegularTasks_filter[symmetric]
    by (simp add: g_def runAfters_def createFinallyNode_def createGenericNode_def
        finallyTask_def)
  have g3: "set (runAfters g) = node_id ` set ns - (\<Union>n\<in>set ns. set (runAfters n))"
    unfolding g2 by auto
  have g4: "distinct (map node_id ns) \<longrightarrow> distinct (runAfters g)"
    unfolding g2 by simp
  from res g1 g2 g3 g4 show ?thesis by blast
qed

text \<open>Two nodes of one id, neither a run-after: the id is listed twice.\<close>

theorem finally_node_runs_after_sinks_counterexample:
  "map_sum id (map runAfters)
     (connectFinallyTasksToNodes exampleLayout (\<lambda>p r. [])
        [exampleNode ''A'' None, exampleNode ''A'' None]
        (Some (examplePipeline (Some [()]))) None)
     = Inr [[], [], [''A'', ''A'']]
   \<and> \<not> distinct [''A'', ''A'']"
  by code_simp

text \<open>The spec's example: \<open>B\<close> and \<open>C\<close> run after \<open>A\<close>, so the finally node runs after \<open>B\<close> and \<open>C\<close>.\<close>

theorem finally_node_runs_after_sinks_witness:
  "\<exists>g. connectFinallyTasksToNodes exampleLayout (\<lambda>p r. [])
         exampleSinkNodes (Some (examplePipeline (Some [()]))) None
           = Inr (exampleSinkNodes @ [g])
     \<and> node_id g = ''finally-node''
     \<and> runAfters g = [''B'', ''C'']"
proof -
  have 1: "spec (examplePipeline (Some [()]))
             = Some \<lparr>spec_finally = Some [()], spec_fields = None\<rparr>"
    and 2: "spec_finally \<lparr>spec_finally = Some [()], spec_fields = None\<rparr> = Some [()]"
    and 3: "[()] \<noteq> []"
    by (simp_all add: examplePipeline_def)
  have 4: "filter (\<lambda>i. i \<notin> (\<Union>n\<in>set exampleSinkNodes. set (runAfters n)))
             (map node_id exampleSinkNodes) = [''B'', ''C'']"
    by (simp add: exampleSinkNodes_def example_defs runAfters_def)
  from finally_node_runs_after_sinks[OF 1 2 3, of exampleLayout "\<lambda>p r. []" exampleSinkNodes None]
  show ?thesis unfolding 4 by blast
qed

text \<open>
  C4 (as the code has it).  When the pipeline has no \<^verbatim>\<open>finally\<close> field (or no
  \<^verbatim>\<open>spec\<close>), \<^verbatim>\<open>connectFinallyTasksToNodes\<close> returns the node list it was given, and
  \<^verbatim>\<open>getTopologyNodesEdges\<close> returns the task nodes with the edges of their run-afters.
\<close>

theorem no_finally_field_identity:
  assumes "\<not> hasFinally pl"
  shows "connectFinallyTasksToNodes c gfs ns (Some pl) r = Inr ns
     \<and> getTopologyNodesEdges h c lc gpt gfs pl r =
         (case wellTyped (tasksToNodes h c lc (concat (gpt pl r)) (Some pl) r) of
            None \<Rightarrow> Inl TypeError
          | Some taskNodes \<Rightarrow>
              Inr \<lparr>nodes = taskNodes, edges = getEdgesFromNodes taskNodes\<rparr>)"
  using assms
  by (auto simp: hasFinally_def connectFinallyTasksToNodes_def getTopologyNodesEdges_def Let_def
      split: option.splits)

text \<open>A \<^verbatim>\<open>finally\<close> field holding the empty array is truthy: the finally node is appended.\<close>

theorem empty_finally_list_counterexample:
  "connectFinallyTasksToNodes exampleLayout (\<lambda>p r. []) [exampleNode ''A'' None]
       (Some (examplePipeline (Some []))) None
     \<noteq> Inr [exampleNode ''A'' None]
   \<and> map node_id (projr (connectFinallyTasksToNodes exampleLayout (\<lambda>p r. [])
       [exampleNode ''A'' None] (Some (examplePipeline (Some []))) None))
     = [''A'', ''finally-node'']"
  by (simp add: connectFinallyTasksToNodes_def examplePipeline_def Let_def createFinallyNode_def
      createGenericNode_def exampleNode_def createTaskNode_def)

text \<open>The spec's scenario: build, test, deploy and no finally field give three nodes and two edges.\<close>

theorem no_finally_field_identity_witness:
  "\<not> hasFinally (examplePipeline None)
   \<and> connectFinallyTasksToNodes exampleLayout (\<lambda>p r. []) exampleSinkNodes
       (Some (examplePipeline None)) None = Inr exampleSinkNodes
   \<and> map_sum id (\<lambda>g. (map node_id (nodes g), map edge_id (edges g)))
       (getTopologyNodesEdges exampleHost exampleLayout codeUnitCompare exampleStages
          (\<lambda>p r. []) (examplePipeline None) None)
      = Inr ([''build'', ''test'', ''deploy''], [''build~to~test'', ''test~to~deploy''])"
proof -
  have h: "\<not> hasFinally (examplePipeline None)"
    by (simp add: hasFinally_def examplePipeline_def)
  have t: "wellTyped (tasksToNodes exampleHost exampleLayout codeUnitCompare
        (concat (exampleStages (examplePipeline None) None)) (Some (examplePipeline None)) None)
     = Some (taskNodeList exampleLayout (concat (exampleStages (examplePipeline None) None))
               (Some (examplePipeline None)) None)"
    by code_simp
  have i: "map node_id (taskNodeList exampleLayout
             (concat (exampleStages (examplePipeline None) None)) (Some (examplePipeline None)) None)
     = [''build'', ''test'', ''deploy'']"
    by code_simp
  have e: "map edge_id (getEdgesFromNodes (taskNodeList exampleLayout
             (concat (exampleStages (examplePipeline None) None)) (Some (examplePipeline None)) None))
       = [''build~to~test'', ''test~to~deploy'']"
    by code_simp
  show ?thesis
    using h no_finally_field_identity[OF h, of exampleLayout "\<lambda>p r. []" exampleSinkNodes None
       exampleHost codeUnitCompare exampleStages]
    by (simp add: t i e)
qed

text \<open>
  C10.  Called without a pipeline, \<^verbatim>\<open>connectFinallyTasksToNodes\<close> raises a
  \<^verbatim>\<open>TypeError\<close> (it reads \<^verbatim>\<open>pipeline.spec\<close>) for every node list; it does not return the
  list.
\<close>

theorem connectFinallyTasksToNodes_undefined_pipeline:
  "connectFinallyTasksToNodes c gfs ns None r = Inl TypeError
   \<and> connectFinallyTasksToNodes c gfs ns None r \<noteq> Inr ns"
  by (simp add: connectFinallyTasksToNodes_def)

section \<open>The height of the finally node\<close>

text \<open>
  C9.  For a count \<open>n\<close> of finally tasks, \<^verbatim>\<open>getFinallyTaskHeight\<close> is
  \<open>n * NODE_HEIGHT + (n - 1) * FINALLY_NODE_VERTICAL_SPACING + 2 * FINALLY_NODE_PADDING\<close>,
  plus \<open>NODE_HEIGHT\<close> when the builder is not disabled.  The builder's finally node has
  the height with the builder row, for the finally tasks and finally list tasks together;
  the viewer's finally node has the height without it, for the finally tasks (those
  with status, when there is a run).
\<close>

theorem finally_node_height:
  "getFinallyTaskHeight c (int n) disableBuilder =
       int n * NODE_HEIGHT c + (int n - 1) * FINALLY_NODE_VERTICAL_SPACING c
       + 2 * FINALLY_NODE_PADDING c + (if disableBuilder then 0 else NODE_HEIGHT c)
   \<and> height (useConnectFinally c payload ns taskGroup) =
       getFinallyTaskHeight c
         (int (length (tg_finallyTasks taskGroup) + length (tg_finallyListTasks taskGroup)))
         False
   \<and> (spec pl = Some s \<and> spec_finally s = Some fin \<longrightarrow>
        (\<exists>g. connectFinallyTasksToNodes c gfs ns (Some pl) r = Inr (ns @ [g])
           \<and> height g =
               getFinallyTaskHeight c
                 (int (length (case r of None \<Rightarrow> fin | Some run \<Rightarrow> gfs pl run))) True))"
proof -
  have a: "getFinallyTaskHeight c (int n) disableBuilder =
       int n * NODE_HEIGHT c + (int n - 1) * FINALLY_NODE_VERTICAL_SPACING c
       + 2 * FINALLY_NODE_PADDING c + (if disableBuilder then 0 else NODE_HEIGHT c)"
    by (simp add: getFinallyTaskHeight_def)
  have b: "height (useConnectFinally c payload ns taskGroup) =
       getFinallyTaskHeight c
         (int (length (tg_finallyTasks taskGroup) + length (tg_finallyListTasks taskGroup)))
         False"
    by (simp add: useConnectFinally_def Let_def createBuilderFinallyNode_def
        createGenericNode_def)
  have c: "\<exists>g. connectFinallyTasksToNodes c gfs ns (Some pl) r = Inr (ns @ [g])
           \<and> height g =
               getFinallyTaskHeight c
                 (int (length (case r of None \<Rightarrow> fin | Some run \<Rightarrow> gfs pl run))) True"
    if "spec pl = Some s" "spec_finally s = Some fin"
    using that
    by (simp add: connectFinallyTasksToNodes_def Let_def createFinallyNode_def
        createGenericNode_def split: option.splits)
  from a b c show ?thesis by blast
qed

text \<open>With sizes 30, 20 and 30: two finally tasks give 140 in the viewer, three rows and the builder row 220.\<close>

theorem finally_node_height_witness:
  "getFinallyTaskHeight exampleLayout (int 2) True = 140
   \<and> height (useConnectFinally exampleLayout None exampleSinkNodes exampleTaskGroup) = 220
   \<and> spec (examplePipeline (Some [(), ()]))
       = Some \<lparr>spec_finally = Some [(), ()], spec_fields = None\<rparr>
   \<and> (\<exists>g. connectFinallyTasksToNodes exampleLayout (\<lambda>p r. []) exampleSinkNodes
             (Some (examplePipeline (Some [(), ()]))) None = Inr (exampleSinkNodes @ [g])
           \<and> height g = 140)"
proof -
  let ?s = "\<lparr>spec_finally = Some [(), ()], spec_fields = (None :: unit option)\<rparr>"
  have p: "spec (examplePipeline (Some [(), ()])) = Some ?s \<and> spec_finally ?s = Some [(), ()]"
    by (simp add: examplePipeline_def)
  have e1: "int 2 * NODE_HEIGHT exampleLayout
       + (int 2 - 1) * FINALLY_NODE_VERTICAL_SPACING exampleLayout
       + 2 * FINALLY_NODE_PADDING exampleLayout
       + (if True then 0 else NODE_HEIGHT exampleLayout) = 140"
    by (simp add: exampleLayout_def)
  have e2: "getFinallyTaskHeight exampleLayout
         (int (length (tg_finallyTasks exampleTaskGroup)
               + length (tg_finallyListTasks exampleTaskGroup)))
         False = 220"
    by (simp add: getFinallyTaskHeight_def exampleLayout_def exampleTaskGroup_def)
  have e3: "(case None of None \<Rightarrow> [(), ()]
             | Some run \<Rightarrow> (\<lambda>p r. []) (examplePipeline (Some [(), ()])) run) = [(), ()]"
    by simp
  from finally_node_height[where c = exampleLayout and n = 2 and disableBuilder = True
        and payload = None and ns = exampleSinkNodes and taskGroup = exampleTaskGroup
        and pl = "examplePipeline (Some [(), ()])" and s = ?s and fin = "[(), ()]"
        and gfs = "\<lambda>p r. []" and r = None]
  have "getFinallyTaskHeight exampleLayout (int 2) True = 140"
    and "height (useConnectFinally exampleLayout None exampleSinkNodes exampleTaskGroup) = 220"
    and "\<exists>g. connectFinallyTasksToNodes exampleLayout (\<lambda>p r. []) exampleSinkNodes
             (Some (examplePipeline (Some [(), ()]))) None = Inr (exampleSinkNodes @ [g])
           \<and> height g = getFinallyTaskHeight exampleLayout (int (length [(), ()])) True"
    unfolding e1 e2 e3 using p by blast+
  then show ?thesis using p by simp
qed

section \<open>The whole transformation\<close>

text \<open>The ids of the result: the spacers, the tasks, and the finally node when there is one.\<close>

lemma tasksToNodes_ids:
  "map (\<lambda>x. node_id (mixed_node x)) (tasksToNodes h c lc ts p r)
     = spacerIds lc (taskNodeList c ts p r) @ map name ts"
  by (simp add: tasksToNodes_def handle_ids taskNodeList_def createTaskNode_def
      createGenericNode_def comp_def)

lemma connectFinally_ids:
  "\<exists>ns'. connectFinallyTasksToNodes c gfs ns (Some pl) r = Inr ns'
     \<and> map node_id ns' = map node_id ns @ (if hasFinally pl then [''finally-node''] else [])"
  by (auto simp: connectFinallyTasksToNodes_def hasFinally_def Let_def createFinallyNode_def
      createGenericNode_def split: option.splits)

lemma getTopologyNodesEdges_ids:
  assumes "getTopologyNodesEdges h c lc gpt gfs pl r = Inr g"
  shows "map node_id (nodes g) =
         spacerIds lc (taskNodeList c (concat (gpt pl r)) (Some pl) r)
         @ map name (concat (gpt pl r))
         @ (if hasFinally pl then [''finally-node''] else [])"
proof -
  let ?tn = "tasksToNodes h c lc (concat (gpt pl r)) (Some pl) r"
  from assms obtain tn where w: "wellTyped ?tn = Some tn"
    by (auto simp: getTopologyNodesEdges_def Let_def split: option.splits)
  from connectFinally_ids[of c gfs tn pl r] obtain ns' where
    1: "connectFinallyTasksToNodes c gfs tn (Some pl) r = Inr ns'"
    and 2: "map node_id ns' = map node_id tn @ (if hasFinally pl then [''finally-node''] else [])"
    by blast
  have g: "g = \<lparr>nodes = ns', edges = getEdgesFromNodes ns'\<rparr>"
    using assms by (simp add: getTopologyNodesEdges_def Let_def w 1)
  have "map node_id tn = map (\<lambda>x. node_id (mixed_node x)) ?tn"
    using wellTyped_nodes[OF w] by (simp add: comp_def)
  then have "map node_id tn = spacerIds lc (taskNodeList c (concat (gpt pl r)) (Some pl) r)
         @ map name (concat (gpt pl r))"
    by (simp only: tasksToNodes_ids)
  with 2 g show ?thesis by simp
qed

lemma spacerId_prefix: "s \<in> set (spacerIds lc ns) \<Longrightarrow> take 9 s = ''parallel-''"
  by (auto simp: spacerIds_def parallelSpacerName_def)

text \<open>
  The transformation returns when no task is named \<^verbatim>\<open>__proto__\<close> or like a property of
  \<^verbatim>\<open>Object.prototype\<close> that passes the test: then the prototype of the run-after map stays
  as it is and every read finds an own entry or nothing.
\<close>

lemma prototype_pushRunAfter:
  "''__proto__'' \<notin> set ks \<Longrightarrow>
     prototype_array (foldl (pushRunAfter sp) m ks) = prototype_array m"
  by (induction ks arbitrary: m) (auto simp: pushRunAfter_def)

lemma prototype_spacerStep:
  "''__proto__'' \<notin> set (p2pNames g) \<Longrightarrow>
     prototype_array (snd (spacerStep c (nn, m) g)) = prototype_array m"
  by (cases g) (simp_all add: prototype_pushRunAfter)

lemma prototype_foldl_spacerStep:
  "\<forall>g\<in>set l. ''__proto__'' \<notin> set (p2pNames g) \<Longrightarrow>
     prototype_array (snd (foldl (spacerStep c) (nn, m) l)) = prototype_array m"
proof (induction l arbitrary: nn m)
  case Nil
  then show ?case by simp
next
  case (Cons g l)
  obtain nn' m' where s: "spacerStep c (nn, m) g = (nn', m')"
    by (cases "spacerStep c (nn, m) g")
  have "prototype_array m' = prototype_array m"
    using prototype_spacerStep[of g c nn m] Cons.prems s by simp
  then show ?case using Cons s by simp
qed

lemma recreateNode_wellTyped:
  assumes "prototype_array m = None"
    and "node_id n \<noteq> ''__proto__''" and "\<not> objectInherits h (node_id n)"
  shows "\<exists>n'. recreateNode h c m n = WellTyped n'"
  using assms
  by (auto simp: recreateNode_def lookupRunAfters_def inheritedPasses_def split: option.splits)

lemma wellTyped_map_total:
  "\<forall>n\<in>set ns. \<exists>n'. f n = WellTyped n' \<Longrightarrow> \<exists>ns'. wellTyped (map f ns) = Some ns'"
  by (induction ns) auto

text \<open>
  When no node id holds a dash, the joined ids of a group give its members back, so
  different groups get different spacer ids.
\<close>

lemma append_sep_eq:
  "d \<notin> set x \<Longrightarrow> d \<notin> set y \<Longrightarrow> x @ d # r = y @ d # s \<Longrightarrow> x = y \<and> r = s"
proof (induction x arbitrary: y)
  case Nil
  then show ?case by (cases y) auto
next
  case (Cons a x)
  then show ?case by (cases y) auto
qed

lemma join_sep_inj:
  assumes "\<forall>x\<in>set xs. d \<notin> set x" and "\<forall>y\<in>set ys. d \<notin> set y"
    and "xs \<noteq> []" and "ys \<noteq> []" and "join [d] xs = join [d] ys"
  shows "xs = ys"
  using assms
proof (induction "[d]" xs arbitrary: ys rule: join.induct)
  case 1
  then show ?case by simp
next
  case (2 x)
  show ?case
  proof (cases ys)
    case Nil
    with 2 show ?thesis by simp
  next
    case (Cons y ys')
    show ?thesis
    proof (cases ys')
      case Nil
      with 2 Cons show ?thesis by simp
    next
      case (Cons y' ys'')
      with 2 \<open>ys = y # ys'\<close> have "x = y @ d # join [d] (y' # ys'')" by simp
      then have "d \<in> set x" by simp
      with 2 show ?thesis by simp
    qed
  qed
next
  case (3 x x' xs)
  show ?case
  proof (cases ys)
    case Nil
    with 3 show ?thesis by simp
  next
    case (Cons y ys')
    show ?thesis
    proof (cases ys')
      case Nil
      with 3 Cons have "y = x @ d # join [d] (x' # xs)" by simp
      then have "d \<in> set y" by simp
      with 3 Cons show ?thesis by simp
    next
      case c: (Cons y' ys'')
      from 3 Cons c have e: "x @ d # join [d] (x' # xs) = y @ d # join [d] (y' # ys'')" by simp
      have "d \<notin> set x" "d \<notin> set y" using 3 Cons by auto
      from append_sep_eq[OF this e] have xy: "x = y" and r: "join [d] (x' # xs) = join [d] (y' # ys'')"
        by auto
      have "x' # xs = y' # ys''"
        using 3(1)[of "y' # ys''"] 3(2,3) Cons c r by auto
      with xy Cons c show ?thesis by simp
    qed
  qed
qed

lemma entry_of_multipleRunBeforeMap:
  assumes "(k, g) \<in> set (multipleRunBeforeMap lc ns)"
  shows "g \<noteq> [] \<and> map ref_node g = filter (inGroup lc k) ns \<and> keyOf lc g = k"
proof -
  let ?ps = "filter (\<lambda>p. inGroup lc k (snd p)) (enumerate 0 ns)"
  from assms have m: "map_of (multipleRunBeforeMap lc ns) k = Some g"
    using distinct_multipleRunBeforeMap by (metis map_of_eq_Some_iff)
  then have g: "g = map mkRef ?ps" and ne: "?ps \<noteq> []"
    by (auto simp: map_of_multipleRunBeforeMap split: if_splits)
  have r: "map ref_node g = filter (inGroup lc k) ns"
    unfolding g ref_node_mkRef by (rule snd_filter_enumerate)
  have gne: "g \<noteq> []" using g ne by simp
  then have "ref_node (hd g) = hd (filter (inGroup lc k) ns)"
    using r by (metis hd_map)
  moreover have "filter (inGroup lc k) ns \<noteq> []" using r gne by auto
  ultimately have "ref_node (hd g) \<in> set (filter (inGroup lc k) ns)"
    by (metis hd_in_set)
  then have "inGroup lc k (ref_node (hd g))" by simp
  then have "keyOf lc g = k" by (simp add: keyOf_def inGroup_runAfters)
  with gne r show ?thesis by simp
qed

lemma keyOf_entries:
  "map (keyOf lc) (map snd (multipleRunBeforeMap lc ns)) = map fst (multipleRunBeforeMap lc ns)"
  using entry_of_multipleRunBeforeMap[of _ _ lc ns] by (auto simp: map_eq_conv)

lemma groups_distinct_keys:
  "distinct (map (keyOf lc) (multiParallelToParallelList lc ns))"
proof -
  have "distinct (map (keyOf lc) (map snd (multipleRunBeforeMap lc ns)))"
    unfolding keyOf_entries by (rule distinct_multipleRunBeforeMap)
  then show ?thesis
    unfolding multiParallelToParallelList_def by (simp only: distinct_map_filter)
qed

lemma group_in_input:
  assumes "g \<in> set (multiParallelToParallelList lc ns)"
  shows "g \<noteq> [] \<and> map ref_node g = filter (inGroup lc (keyOf lc g)) ns"
proof -
  from assms obtain k where "(k, g) \<in> set (multipleRunBeforeMap lc ns)"
    by (auto simp: multiParallelToParallelList_def)
  from entry_of_multipleRunBeforeMap[OF this] show ?thesis by simp
qed

lemma spacerIds_distinct_without_dashes:
  assumes ids: "distinct (map node_id ns)"
    and nodash: "\<forall>n\<in>set ns. CHR ''-'' \<notin> set (node_id n)"
  shows "distinct (spacerIds lc ns)"
proof -
  let ?l = "multiParallelToParallelList lc ns"
  have dk: "distinct (map (keyOf lc) ?l)" by (rule groups_distinct_keys)
  then have dl: "distinct ?l" and ik: "inj_on (keyOf lc) (set ?l)"
    by (simp_all add: distinct_map)
  have "inj_on parallelSpacerName (set ?l)"
  proof (rule inj_onI)
    fix g1 g2
    assume g1: "g1 \<in> set ?l" and g2: "g2 \<in> set ?l"
      and e: "parallelSpacerName g1 = parallelSpacerName g2"
    from group_in_input[OF g1] have n1: "g1 \<noteq> []"
      and m1: "map ref_node g1 = filter (inGroup lc (keyOf lc g1)) ns" by auto
    from group_in_input[OF g2] have n2: "g2 \<noteq> []"
      and m2: "map ref_node g2 = filter (inGroup lc (keyOf lc g2)) ns" by auto
    have s1: "set (map ref_node g1) \<subseteq> set ns" unfolding m1 by auto
    have s2: "set (map ref_node g2) \<subseteq> set ns" unfolding m2 by auto
    have d1: "\<forall>x\<in>set (p2pNames g1). CHR ''-'' \<notin> set x"
      using s1 nodash by (auto simp: p2pNames_def)
    have d2: "\<forall>x\<in>set (p2pNames g2). CHR ''-'' \<notin> set x"
      using s2 nodash by (auto simp: p2pNames_def)
    have "join ''-'' (p2pNames g1) = join ''-'' (p2pNames g2)"
      using e by (simp add: parallelSpacerName_def)
    from join_sep_inj[OF d1 d2 _ _ this] n1 n2 have pn: "p2pNames g1 = p2pNames g2"
      by (simp add: p2pNames_def)
    then have "node_id (ref_node (hd g1)) = node_id (ref_node (hd g2))"
      using n1 n2 by (cases g1; cases g2) (simp_all add: p2pNames_def)
    moreover have "ref_node (hd g1) \<in> set ns" "ref_node (hd g2) \<in> set ns"
      using s1 s2 n1 n2 by (cases g1; cases g2; auto)+
    ultimately have "ref_node (hd g1) = ref_node (hd g2)"
      using ids by (meson distinct_map inj_onD)
    then have "keyOf lc g1 = keyOf lc g2" by (simp add: keyOf_def)
    with ik g1 g2 show "g1 = g2" by (meson inj_onD)
  qed
  with dl show ?thesis by (simp add: spacerIds_def distinct_map)
qed

lemma name_not_in_image: "set X \<subseteq> f ` set ns \<Longrightarrow> \<forall>n\<in>set ns. f n \<noteq> k \<Longrightarrow> k \<notin> set X"
  by blast

lemma handle_wellTyped:
  assumes "\<forall>n\<in>set ns. node_id n \<noteq> ''__proto__'' \<and> \<not> objectInherits h (node_id n)"
  shows "\<exists>out. wellTyped (handleParallelToParallelNodes h c lc ns) = Some out"
proof (cases "multiParallelToParallelList lc ns = []")
  case True
  then show ?thesis by (simp add: handle_shape)
next
  case False
  let ?l = "multiParallelToParallelList lc ns"
  let ?m = "snd (foldl (spacerStep c) ([], emptyObject) ?l)"
  have "''__proto__'' \<notin> set (p2pNames g)" if g: "g \<in> set ?l" for g
  proof -
    from group_in_input[OF g] have "set (map ref_node g) \<subseteq> set ns" by auto
    then have "set (p2pNames g) \<subseteq> node_id ` set ns" by (auto simp: p2pNames_def)
    moreover have "\<forall>n\<in>set ns. node_id n \<noteq> ''__proto__''" using assms by simp
    ultimately show ?thesis by (rule name_not_in_image)
  qed
  then have "prototype_array ?m = prototype_array emptyObject"
    using prototype_foldl_spacerStep[of ?l c "[]" emptyObject] by blast
  then have p: "prototype_array ?m = None" by (simp add: emptyObject_def)
  have "\<forall>n\<in>set ns. \<exists>n'. recreateNode h c ?m n = WellTyped n'"
    using recreateNode_wellTyped[OF p] assms by blast
  from wellTyped_map_total[OF this] obtain ns' where
    w: "wellTyped (map (recreateNode h c ?m) ns) = Some ns'" by blast
  have "handleParallelToParallelNodes h c lc ns
          = map WellTyped (map (spacerOf c) ?l) @ map (recreateNode h c ?m) ns"
    using False by (simp only: handle_shape if_False)
  then have "wellTyped (handleParallelToParallelNodes h c lc ns)
          = Some (map (spacerOf c) ?l @ ns')"
    by (simp only: wellTyped_append wellTyped_map w option.simps)
  then show ?thesis by blast
qed

lemma getTopologyNodesEdges_returns:
  assumes "\<forall>t\<in>set (concat (gpt pl r)). name t \<noteq> ''__proto__'' \<and> \<not> objectInherits h (name t)"
  shows "\<exists>g. getTopologyNodesEdges h c lc gpt gfs pl r = Inr g"
proof -
  have "\<forall>n\<in>set (taskNodeList c (concat (gpt pl r)) (Some pl) r).
          node_id n \<noteq> ''__proto__'' \<and> \<not> objectInherits h (node_id n)"
    using assms
    by (auto simp: taskNodeList_def createTaskNode_def createGenericNode_def
        simp del: set_concat)
  from handle_wellTyped[OF this, of c lc] obtain tn where
    w: "wellTyped (tasksToNodes h c lc (concat (gpt pl r)) (Some pl) r) = Some tn"
    by (auto simp: tasksToNodes_def)
  from connectFinally_ids[of c gfs tn pl r] obtain ns' where
    "connectFinallyTasksToNodes c gfs tn (Some pl) r = Inr ns'" by blast
  then show ?thesis by (simp add: getTopologyNodesEdges_def Let_def w)
qed

text \<open>
  A task named \<^verbatim>\<open>constructor\<close> beside a group leaves the node type, and
  \<^verbatim>\<open>getEdgesFromNodes\<close> raises; without a group the run-after map is never read and the
  graph is returned.  A member named \<^verbatim>\<open>__proto__\<close> makes an array the prototype of the
  map, whose first element a node named \<^verbatim>\<open>0\<close> then finds.
\<close>

lemma constructor_beside_group_raises:
  "getTopologyNodesEdges exampleHost exampleLayout codeUnitCompare exampleConstructorStages
     (\<lambda>p r. []) (examplePipeline None) None = Inl TypeError
   \<and> map_sum id (\<lambda>g. map node_id (nodes g))
       (getTopologyNodesEdges exampleHost exampleLayout codeUnitCompare
          (\<lambda>p r. [[exampleTask ''x'' None, exampleTask ''constructor'' (Some [''x''])]])
          (\<lambda>p r. []) (examplePipeline None) None)
      = Inr [''x'', ''constructor'']"
  by code_simp

lemma proto_member_sets_prototype:
  "handleParallelToParallelNodes exampleHost exampleLayout codeUnitCompare
     [exampleNode ''__proto__'' (Some [''x'', ''y'']), exampleNode ''B'' (Some [''x'', ''y'']),
      exampleNode ''0'' (Some [''x'']), exampleNode ''length'' None]
   = [WellTyped (createSpacerNode exampleLayout ''parallel-__proto__-B''
                   (spacerData ''parallel-__proto__-B'' [''x'', ''y''])),
      WellTyped (exampleNode ''__proto__'' (Some [''parallel-__proto__-B''])),
      WellTyped (exampleNode ''B'' (Some [''parallel-__proto__-B''])),
      IllTyped (exampleNode ''0'' (Some [''x''])),
      WellTyped (exampleNode ''length'' None)]"
  by code_simp

text \<open>
  C8 (as the code has it).  Let the task names be pairwise distinct and let
  \<^verbatim>\<open>getTopologyNodesEdges\<close> return a graph.  Its node ids are pairwise distinct if and only
  if the spacers of different groups have different ids, no task has the id of a
  spacer, and, when the pipeline has a \<^verbatim>\<open>finally\<close> field, no task is named
  \<^verbatim>\<open>finally-node\<close>.  The code reserves no name and checks none of the three.
\<close>

theorem node_ids_unique:
  assumes returns: "getTopologyNodesEdges h c lc gpt gfs pl r = Inr g"
    and names: "distinct (map name (concat (gpt pl r)))"
  shows "distinct (map node_id (nodes g)) \<longleftrightarrow>
           distinct (spacerIds lc (taskNodeList c (concat (gpt pl r)) (Some pl) r))
         \<and> set (spacerIds lc (taskNodeList c (concat (gpt pl r)) (Some pl) r))
             \<inter> set (map name (concat (gpt pl r))) = {}
         \<and> (hasFinally pl \<longrightarrow> ''finally-node'' \<notin> set (map name (concat (gpt pl r))))"
proof -
  define sp where "sp = spacerIds lc (taskNodeList c (concat (gpt pl r)) (Some pl) r)"
  define nm where "nm = map name (concat (gpt pl r))"
  define fn where "fn = ''finally-node''"
  have ids: "map node_id (nodes g) = sp @ nm @ (if hasFinally pl then [fn] else [])"
    using getTopologyNodesEdges_ids[OF returns] by (simp add: sp_def nm_def fn_def)
  have c: "fn \<notin> set sp"
    using spacerId_prefix[of fn lc "taskNodeList c (concat (gpt pl r)) (Some pl) r"]
    by (auto simp: sp_def fn_def)
  have d: "distinct nm" using names by (simp add: nm_def)
  have "distinct (sp @ nm @ (if hasFinally pl then [fn] else [])) \<longleftrightarrow>
          distinct sp \<and> set sp \<inter> set nm = {} \<and> (hasFinally pl \<longrightarrow> fn \<notin> set nm)"
    using c d by auto
  then show ?thesis unfolding ids sp_def nm_def fn_def .
qed

text \<open>
  Three task lists with pairwise distinct names at which ids repeat: a task named
  \<^verbatim>\<open>finally-node\<close> in a pipeline with finally tasks, a task named like the spacer of two
  others, and two groups whose members' ids give the same string when joined.
\<close>

theorem node_ids_unique_counterexample:
  "distinct (map name (concat (exampleFinallyNameStages (examplePipeline (Some [()])) None)))
   \<and> map_sum id (\<lambda>g. map node_id (nodes g))
       (getTopologyNodesEdges exampleHost exampleLayout codeUnitCompare
          exampleFinallyNameStages (\<lambda>p r. []) (examplePipeline (Some [()])) None)
      = Inr [''finally-node'', ''finally-node'']
   \<and> distinct (map name (concat (exampleSpacerNameStages (examplePipeline None) None)))
   \<and> map_sum id (\<lambda>g. map node_id (nodes g))
       (getTopologyNodesEdges exampleHost exampleLayout codeUnitCompare
          exampleSpacerNameStages (\<lambda>p r. []) (examplePipeline None) None)
      = Inr [''parallel-A-B'', ''x'', ''y'', ''A'', ''B'', ''parallel-A-B'']
   \<and> distinct (map name (concat (exampleDashStages (examplePipeline None) None)))
   \<and> map_sum id (\<lambda>g. map node_id (nodes g))
       (getTopologyNodesEdges exampleHost exampleLayout codeUnitCompare
          exampleDashStages (\<lambda>p r. []) (examplePipeline None) None)
      = Inr [''parallel-a-b-c'', ''parallel-a-b-c'', ''x'', ''y'', ''z'',
             ''a-b'', ''c'', ''a'', ''b-c'']"
  by code_simp

text \<open>Tasks \<open>x\<close>, \<open>y\<close>, \<open>A\<close>, \<open>B\<close> with finally tasks: one spacer, one finally node, six ids.\<close>

theorem node_ids_unique_witness:
  "\<exists>g. getTopologyNodesEdges exampleHost exampleLayout codeUnitCompare exampleParallelStages
          (\<lambda>p r. []) (examplePipeline (Some [()])) None = Inr g
      \<and> map node_id (nodes g) = [''parallel-A-B'', ''x'', ''y'', ''A'', ''B'', ''finally-node'']
      \<and> distinct (map node_id (nodes g))"
proof -
  let ?pl = "examplePipeline (Some [()])"
  have e: "map_sum id (\<lambda>g. map node_id (nodes g))
       (getTopologyNodesEdges exampleHost exampleLayout codeUnitCompare exampleParallelStages
          (\<lambda>p r. []) ?pl None)
      = Inr [''parallel-A-B'', ''x'', ''y'', ''A'', ''B'', ''finally-node'']"
    by code_simp
  then obtain g where
    g: "getTopologyNodesEdges exampleHost exampleLayout codeUnitCompare exampleParallelStages
          (\<lambda>p r. []) ?pl None = Inr g"
    and i: "map node_id (nodes g) = [''parallel-A-B'', ''x'', ''y'', ''A'', ''B'', ''finally-node'']"
    by (cases "getTopologyNodesEdges exampleHost exampleLayout codeUnitCompare
          exampleParallelStages (\<lambda>p r. []) ?pl None") auto
  have 1: "distinct (map name (concat (exampleParallelStages ?pl None)))"
    by code_simp
  have 2: "distinct (spacerIds codeUnitCompare
             (taskNodeList exampleLayout (concat (exampleParallelStages ?pl None)) (Some ?pl) None))"
    by code_simp
  have 3: "set (spacerIds codeUnitCompare
             (taskNodeList exampleLayout (concat (exampleParallelStages ?pl None)) (Some ?pl) None))
           \<inter> set (map name (concat (exampleParallelStages ?pl None))) = {}"
    by code_simp
  have 4: "''finally-node'' \<notin> set (map name (concat (exampleParallelStages ?pl None)))"
    by code_simp
  from node_ids_unique[OF g 1] 2 3 4 have d: "distinct (map node_id (nodes g))" by blast
  from g i d show ?thesis by (intro exI[of _ g] conjI)
qed

end
